theory Spec2Isabelle
  imports Main "HOL-Library.Word"
begin

unbundle bit_operations_syntax

section \<open>The shared segment\<close>

text \<open>
  One ring is a shared header followed by an array of blocks. Block pointers are
  represented by the index of the block they address: the source computes
  \<open>blocks + blockIndex * fullBlockSize\<close>, and an address outside the block array is an
  index outside the list \<open>blocks\<close>. Index words, done flags and sizes keep the widths
  the source casts them to (\<open>uint32\<close>, \<open>uint64\<close>).
\<close>

type_synonym byte = "8 word"

datatype error =
    ErrClosedPipe
  | ErrInvalidSharedMemory
  | ErrInvalidBuffer
  | EOF
  | ErrSemaphore
  | ErrIO nat

text \<open>
  Modelled from the spec: the semaphore collaborator (package go-sem, imported by the
  source and not part of it). \<open>Wait\<close> consumes a token when one is available and
  suspends the caller otherwise; \<open>Post\<close> adds a token. Both return an error value in
  the source; \<open>broken\<close> marks a semaphore whose operations report one.
\<close>

record semaphore =
  tokens :: nat
  broken :: bool

datatype wait_result = Acquired semaphore | WouldBlock | WaitFailed

definition sem_Wait :: "semaphore \<Rightarrow> wait_result" where
  "sem_Wait s =
     (if broken s then WaitFailed
      else if tokens s = 0 then WouldBlock
      else Acquired (s\<lparr>tokens := tokens s - 1\<rparr>))"

definition sem_Post :: "semaphore \<Rightarrow> semaphore option" where
  "sem_Post s = (if broken s then None else Some (s\<lparr>tokens := Suc (tokens s)\<rparr>))"

record sharedBlock =
  Next :: "32 word"
  Prev :: "32 word"
  Size :: "64 word"
  DoneRead :: "32 word"
  DoneWrite :: "32 word"
  Flags :: "byte list"
  Payload :: "byte list"

record sharedMem =
  BlockCount :: "32 word"
  BlockSize :: "64 word"
  ReadStart :: "32 word"
  ReadEnd :: "32 word"
  WriteStart :: "32 word"
  WriteEnd :: "32 word"
  SemSignal :: semaphore
  SemAvail :: semaphore
  blocks :: "sharedBlock list"

text \<open>
  The endpoint. Only the process-private \<open>closed\<close> word takes part in the protocol;
  \<open>readShared\<close> and \<open>writeShared\<close> are pointers to the ring each operation works on,
  and every operation below receives the contents of that ring as its \<open>sharedMem\<close>
  argument and returns the updated contents.
\<close>

record ReadWriteCloser =
  closed :: "32 word"

text \<open>
  A buffer handle: \<open>block\<close> is the block pointer (as an index), \<open>Data\<close> is the slice
  of that block's payload with length \<open>Data_len\<close> and capacity \<open>Data_cap\<close>, and the
  \<open>Flags\<close> pointer of the source is the flag array of the same block.
\<close>

record Buffer =
  block :: nat
  writeB :: bool
  Data_len :: nat
  Data_cap :: nat

datatype semname = OnSemSignal | OnSemAvail

text \<open>
  What a call does: it returns, it is suspended inside \<open>Wait\<close> on a semaphore with no
  token (no peer runs during the call, so it stays there), or it faults (a Go panic
  from a slice expression, or a memory access outside the block array).
\<close>

datatype 'a outcome = Returns 'a | Parked semname | Fault

definition andThen ::
  "'a outcome \<times> 's \<Rightarrow> ('a \<Rightarrow> 's \<Rightarrow> 'b outcome \<times> 's) \<Rightarrow> 'b outcome \<times> 's" where
  "andThen r k =
     (case r of
        (Returns a, s) \<Rightarrow> k a s
      | (Parked w, s) \<Rightarrow> (Parked w, s)
      | (Fault, s) \<Rightarrow> (Fault, s))"

definition blockAt :: "sharedMem \<Rightarrow> nat \<Rightarrow> sharedBlock option" where
  "blockAt m i = (if i < length (blocks m) then Some (blocks m ! i) else None)"

definition updBlock :: "nat \<Rightarrow> (sharedBlock \<Rightarrow> sharedBlock) \<Rightarrow> sharedMem \<Rightarrow> sharedMem" where
  "updBlock i f m = m\<lparr>blocks := (blocks m)[i := f (blocks m ! i)]\<rparr>"

text \<open>
  \<open>atomic.CompareAndSwapUint32\<close> on a word whose current contents are \<open>cur\<close>:
  whether it swapped, and the contents afterwards.
\<close>

definition CompareAndSwapUint32 :: "32 word \<Rightarrow> 32 word \<Rightarrow> 32 word \<Rightarrow> bool \<times> 32 word" where
  "CompareAndSwapUint32 cur old new = (if cur = old then (True, new) else (False, cur))"

definition eofFlagMask :: byte where
  "eofFlagMask = 0x01"

text \<open>
  The view \<open>(*[1 << 30]byte)\<close> of the payload bounds every slice expression on it:
  \<open>data[:n:c]\<close> panics unless \<open>n \<le> c \<le> 2^30\<close>.
\<close>

definition sliceOK :: "nat \<Rightarrow> nat \<Rightarrow> bool" where
  "sliceOK n c = (n \<le> c \<and> c \<le> 2 ^ 30)"

section \<open>Reader side\<close>

function GetReadBuffer_loop :: "sharedMem \<Rightarrow> (error + Buffer) outcome \<times> sharedMem" where
  "GetReadBuffer_loop m =
     (let blockIndex = ReadStart m in
      if blockIndex > BlockCount m then (Returns (Inl ErrInvalidSharedMemory), m)
      else if blockIndex = WriteEnd m then
        (case sem_Wait (SemSignal m) of
           WaitFailed \<Rightarrow> (Returns (Inl ErrSemaphore), m)
         | WouldBlock \<Rightarrow> (Parked OnSemSignal, m)
         | Acquired s \<Rightarrow> GetReadBuffer_loop (m\<lparr>SemSignal := s\<rparr>))
      else
        (case blockAt m (unat blockIndex) of
           None \<Rightarrow> (Fault, m)
         | Some b \<Rightarrow>
             (let (swapped, v) = CompareAndSwapUint32 (ReadStart m) blockIndex (Next b) in
              if swapped then
                (if sliceOK (unat (Size b)) (unat (BlockSize m))
                 then (Returns (Inr \<lparr>block = unat blockIndex, writeB = False,
                                      Data_len = unat (Size b),
                                      Data_cap = unat (BlockSize m)\<rparr>),
                       m\<lparr>ReadStart := v\<rparr>)
                 else (Fault, m\<lparr>ReadStart := v\<rparr>))
              else GetReadBuffer_loop (m\<lparr>ReadStart := v\<rparr>))))"
  by pat_completeness auto
termination
  by (relation "measure (\<lambda>m. tokens (SemSignal m))")
     (auto simp: sem_Wait_def CompareAndSwapUint32_def split: if_splits)

declare GetReadBuffer_loop.simps [simp del]

definition GetReadBuffer ::
  "ReadWriteCloser \<Rightarrow> sharedMem \<Rightarrow> (error + Buffer) outcome \<times> sharedMem" where
  "GetReadBuffer rw m =
     (if closed rw \<noteq> 0 then (Returns (Inl ErrClosedPipe), m)
      else GetReadBuffer_loop m)"

lemma filter_update_less:
  "i < length xs \<Longrightarrow> P (xs ! i) \<Longrightarrow> \<not> P y \<Longrightarrow>
   length (filter P (xs[i := y])) < length (filter P xs)"
proof (induction xs arbitrary: i)
  case Nil
  then show ?case by simp
next
  case (Cons x xs)
  show ?case
  proof (cases i)
    case 0
    with Cons.prems show ?thesis by simp
  next
    case (Suc j)
    with Cons.prems Cons.IH [of j] show ?thesis by simp
  qed
qed

function SendReadBuffer_loop :: "sharedMem \<Rightarrow> error option outcome \<times> sharedMem" where
  "SendReadBuffer_loop m =
     (let blockIndex = ReadEnd m in
      if blockIndex > BlockCount m then (Returns (Some ErrInvalidSharedMemory), m)
      else
        (case blockAt m (unat blockIndex) of
           None \<Rightarrow> (Fault, m)
         | Some b \<Rightarrow>
             (let (swapped, d) = CompareAndSwapUint32 (DoneRead b) 1 0 in
              if \<not> swapped then (Returns None, m)
              else
                (let m1 = updBlock (unat blockIndex) (\<lambda>c. c\<lparr>DoneRead := d\<rparr>) m;
                     m2 = m1\<lparr>ReadEnd :=
                            snd (CompareAndSwapUint32 (ReadEnd m1) blockIndex (Next b))\<rparr>
                 in if Prev b = WriteStart m2 then
                      (case sem_Post (SemAvail m2) of
                         None \<Rightarrow> (Returns (Some ErrSemaphore), m2)
                       | Some s \<Rightarrow> SendReadBuffer_loop (m2\<lparr>SemAvail := s\<rparr>))
                    else SendReadBuffer_loop m2))))"
  by pat_completeness auto
termination
  by (relation "measure (\<lambda>m. length (filter (\<lambda>b. DoneRead b = 1) (blocks m)))")
     (auto simp: CompareAndSwapUint32_def blockAt_def updBlock_def
           split: if_splits intro!: filter_update_less)

declare SendReadBuffer_loop.simps [simp del]

definition SendReadBuffer ::
  "ReadWriteCloser \<Rightarrow> Buffer \<Rightarrow> sharedMem \<Rightarrow> error option outcome \<times> sharedMem" where
  "SendReadBuffer rw buf m =
     (if closed rw \<noteq> 0 then (Returns (Some ErrClosedPipe), m)
      else if writeB buf then (Returns (Some ErrInvalidBuffer), m)
      else
        (case blockAt m (block buf) of
           None \<Rightarrow> (Fault, m)
         | Some b \<Rightarrow> SendReadBuffer_loop (updBlock (block buf) (\<lambda>c. c\<lparr>DoneRead := 1\<rparr>) m)))"

section \<open>Writer side\<close>

function GetWriteBuffer_loop :: "sharedMem \<Rightarrow> (error + Buffer) outcome \<times> sharedMem" where
  "GetWriteBuffer_loop m =
     (let blockIndex = WriteStart m in
      if blockIndex > BlockCount m then (Returns (Inl ErrInvalidSharedMemory), m)
      else
        (case blockAt m (unat blockIndex) of
           None \<Rightarrow> (Fault, m)
         | Some b \<Rightarrow>
             if Next b = ReadEnd m then
               (case sem_Wait (SemAvail m) of
                  WaitFailed \<Rightarrow> (Returns (Inl ErrSemaphore), m)
                | WouldBlock \<Rightarrow> (Parked OnSemAvail, m)
                | Acquired s \<Rightarrow> GetWriteBuffer_loop (m\<lparr>SemAvail := s\<rparr>))
             else
               (let (swapped, v) = CompareAndSwapUint32 (WriteStart m) blockIndex (Next b) in
                if swapped then
                  (if sliceOK 0 (unat (BlockSize m))
                   then (Returns (Inr \<lparr>block = unat blockIndex, writeB = True,
                                        Data_len = 0,
                                        Data_cap = unat (BlockSize m)\<rparr>),
                         m\<lparr>WriteStart := v\<rparr>)
                   else (Fault, m\<lparr>WriteStart := v\<rparr>))
                else GetWriteBuffer_loop (m\<lparr>WriteStart := v\<rparr>))))"
  by pat_completeness auto
termination
  by (relation "measure (\<lambda>m. tokens (SemAvail m))")
     (auto simp: sem_Wait_def CompareAndSwapUint32_def split: if_splits)

declare GetWriteBuffer_loop.simps [simp del]

definition GetWriteBuffer ::
  "ReadWriteCloser \<Rightarrow> sharedMem \<Rightarrow> (error + Buffer) outcome \<times> sharedMem" where
  "GetWriteBuffer rw m =
     (if closed rw \<noteq> 0 then (Returns (Inl ErrClosedPipe), m)
      else GetWriteBuffer_loop m)"

text \<open>The first argument of the loop is \<open>len(buf.Data)\<close>, which every return hands back.\<close>

function SendWriteBuffer_loop ::
  "nat \<Rightarrow> sharedMem \<Rightarrow> (nat \<times> error option) outcome \<times> sharedMem" where
  "SendWriteBuffer_loop n m =
     (let blockIndex = WriteEnd m in
      if blockIndex > BlockCount m then (Returns (n, Some ErrInvalidSharedMemory), m)
      else
        (case blockAt m (unat blockIndex) of
           None \<Rightarrow> (Fault, m)
         | Some b \<Rightarrow>
             (let (swapped, d) = CompareAndSwapUint32 (DoneWrite b) 1 0 in
              if \<not> swapped then (Returns (n, None), m)
              else
                (let m1 = updBlock (unat blockIndex) (\<lambda>c. c\<lparr>DoneWrite := d\<rparr>) m;
                     m2 = m1\<lparr>WriteEnd :=
                            snd (CompareAndSwapUint32 (WriteEnd m1) blockIndex (Next b))\<rparr>
                 in if blockIndex = ReadStart m2 then
                      (case sem_Post (SemSignal m2) of
                         None \<Rightarrow> (Returns (n, Some ErrSemaphore), m2)
                       | Some s \<Rightarrow> SendWriteBuffer_loop n (m2\<lparr>SemSignal := s\<rparr>))
                    else SendWriteBuffer_loop n m2))))"
  by pat_completeness auto
lemma SendWriteBuffer_loop_dec:
  "blockAt m i = Some b \<Longrightarrow> DoneWrite b = 1 \<Longrightarrow>
   length (filter (\<lambda>b. DoneWrite b = 1) (blocks (updBlock i (\<lambda>c. c\<lparr>DoneWrite := 0\<rparr>) m)))
     < length (filter (\<lambda>b. DoneWrite b = 1) (blocks m))"
  by (auto simp: blockAt_def updBlock_def split: if_splits intro!: filter_update_less)

termination SendWriteBuffer_loop
proof (relation "measure (\<lambda>(n, m). length (filter (\<lambda>b. DoneWrite b = 1) (blocks m)))", goal_cases)
  case 1
  show ?case by simp
next
  case (2 n m x b xa swapped d m1 m2 s)
  have d: "DoneWrite b = 1" "d = 0"
    using 2(4,5,6) by (auto simp: CompareAndSwapUint32_def split: if_splits)
  have "blocks (m2\<lparr>SemSignal := s\<rparr>) = blocks (updBlock (unat x) (\<lambda>c. c\<lparr>DoneWrite := 0\<rparr>) m)"
    using 2(7,8) d by simp
  then show ?case
    using SendWriteBuffer_loop_dec [OF 2(3) d(1)] by simp
next
  case (3 n m x b xa swapped d m1 m2)
  have d: "DoneWrite b = 1" "d = 0"
    using 3(4,5,6) by (auto simp: CompareAndSwapUint32_def split: if_splits)
  have "blocks m2 = blocks (updBlock (unat x) (\<lambda>c. c\<lparr>DoneWrite := 0\<rparr>) m)"
    using 3(7,8) d by simp
  then show ?case
    using SendWriteBuffer_loop_dec [OF 3(3) d(1)] by simp
qed

declare SendWriteBuffer_loop.simps [simp del]

definition SendWriteBuffer ::
  "ReadWriteCloser \<Rightarrow> Buffer \<Rightarrow> sharedMem \<Rightarrow> (nat \<times> error option) outcome \<times> sharedMem" where
  "SendWriteBuffer rw buf m =
     (if closed rw \<noteq> 0 then (Returns (0, Some ErrClosedPipe), m)
      else if \<not> writeB buf then (Returns (0, Some ErrInvalidBuffer), m)
      else
        (case blockAt m (block buf) of
           None \<Rightarrow> (Fault, m)
         | Some b \<Rightarrow>
             SendWriteBuffer_loop (Data_len buf)
               (updBlock (block buf) (\<lambda>c. c\<lparr>DoneWrite := 1\<rparr>)
                 (updBlock (block buf) (\<lambda>c. c\<lparr>Size := of_nat (Data_len buf)\<rparr>) m))))"

section \<open>Stream adaptor\<close>

text \<open>
  Go's \<open>copy(dst, src)\<close>: the number of bytes copied is the smaller length; the result
  is the new contents of \<open>dst\<close>.
\<close>

definition copy :: "byte list \<Rightarrow> byte list \<Rightarrow> nat \<times> byte list" where
  "copy dst src =
     (let n = min (length dst) (length src) in (n, take n src @ drop n dst))"

text \<open>\<open>buf.Data\<close> read through the handle: the first \<open>len\<close> bytes of the block's payload.\<close>

definition Data :: "sharedBlock \<Rightarrow> Buffer \<Rightarrow> byte list" where
  "Data b buf = take (Data_len buf) (Payload b)"

text \<open>
  \<open>Read\<close> returns \<open>(n, err)\<close> and has filled the caller's slice \<open>p\<close>; the third
  component of the result is the contents of \<open>p\<close> afterwards.
\<close>

definition Read ::
  "ReadWriteCloser \<Rightarrow> byte list \<Rightarrow> sharedMem
     \<Rightarrow> (nat \<times> error option \<times> byte list) outcome \<times> sharedMem" where
  "Read rw p m =
     andThen (GetReadBuffer rw m) (\<lambda>r m1.
       case r of
         Inl e \<Rightarrow> (Returns (0, Some e, p), m1)
       | Inr buf \<Rightarrow>
           (case blockAt m1 (block buf) of
              None \<Rightarrow> (Fault, m1)
            | Some b \<Rightarrow>
                (let (n, p') = copy p (Data b buf) in
                 case Flags b of
                   [] \<Rightarrow> (Fault, m1)
                 | f # fs \<Rightarrow>
                     (let isEOF = (f AND eofFlagMask \<noteq> 0) in
                      andThen (SendReadBuffer rw buf m1) (\<lambda>err m2.
                        case err of
                          Some e \<Rightarrow> (Returns (n, Some e, p'), m2)
                        | None \<Rightarrow>
                            if isEOF then (Returns (n, Some EOF, p'), m2)
                            else (Returns (n, None, p'), m2))))))"

text \<open>
  \<open>Write\<close>: the copy goes into \<open>buf.Data[:cap(buf.Data)]\<close>, that is into the first
  \<open>cap\<close> bytes of the block's payload, and the flag byte is updated in the block.
\<close>

definition Write ::
  "ReadWriteCloser \<Rightarrow> byte list \<Rightarrow> sharedMem \<Rightarrow> (nat \<times> error option) outcome \<times> sharedMem" where
  "Write rw p m =
     andThen (GetWriteBuffer rw m) (\<lambda>r m1.
       case r of
         Inl e \<Rightarrow> (Returns (0, Some e), m1)
       | Inr buf \<Rightarrow>
           (case blockAt m1 (block buf) of
              None \<Rightarrow> (Fault, m1)
            | Some b \<Rightarrow>
                (let (n, d) = copy (take (Data_cap buf) (Payload b)) p;
                     m2 = updBlock (block buf)
                            (\<lambda>c. c\<lparr>Payload := d @ drop (Data_cap buf) (Payload c)\<rparr>) m1;
                     buf' = buf\<lparr>Data_len := n\<rparr>
                 in case Flags b of
                      [] \<Rightarrow> (Fault, m2)
                    | f # fs \<Rightarrow>
                        (let m3 = updBlock (block buf)
                                    (\<lambda>c. c\<lparr>Flags := (f OR eofFlagMask) # fs\<rparr>) m2
                         in andThen (SendWriteBuffer rw buf' m3) (\<lambda>(k, err) m4.
                              (Returns (n, err), m4))))))"

text \<open>
  An \<open>io.Reader\<close> is a state and its \<open>Read\<close>: called with the length of the slice it
  may fill, it answers the bytes it stored there (their number is \<open>nn\<close>), an error
  value, and its next state. The byte count \<open>n\<close> of the source is an \<open>int64\<close>;
  it is an unbounded integer here.
\<close>

type_synonym 'r reader = "'r \<Rightarrow> nat \<Rightarrow> (byte list \<times> error option) \<times> 'r"

text \<open>
  One pass through the body of the \<open>for\<close> loop of \<open>ReadFrom\<close>: \<open>Inl\<close> is a return
  (or a suspended or faulted call), \<open>Inr\<close> the state at the start of the next pass.
\<close>

definition ReadFrom_iter ::
  "ReadWriteCloser \<Rightarrow> 'r reader \<Rightarrow> 'r \<Rightarrow> int \<Rightarrow> sharedMem
     \<Rightarrow> ((int \<times> error option) outcome \<times> sharedMem \<times> 'r) + (int \<times> sharedMem \<times> 'r)" where
  "ReadFrom_iter rw rd r n m =
     (case GetWriteBuffer rw m of
        (Parked w, m1) \<Rightarrow> Inl (Parked w, m1, r)
      | (Fault, m1) \<Rightarrow> Inl (Fault, m1, r)
      | (Returns (Inl e), m1) \<Rightarrow> Inl (Returns (n, Some e), m1, r)
      | (Returns (Inr buf), m1) \<Rightarrow>
          (case blockAt m1 (block buf) of
             None \<Rightarrow> Inl (Fault, m1, r)
           | Some b \<Rightarrow>
               (case rd r (Data_cap buf) of
                  ((data, err), r') \<Rightarrow>
                    (let nn = length data in
                     if nn > Data_cap buf then Inl (Fault, m1, r')
                     else
                       (let m2 = updBlock (block buf)
                                   (\<lambda>c. c\<lparr>Payload := data @ drop nn (Payload c)\<rparr>) m1;
                            buf' = buf\<lparr>Data_len := nn\<rparr>;
                            n' = n + int nn
                        in case Flags b of
                             [] \<Rightarrow> Inl (Fault, m2, r')
                           | f # fs \<Rightarrow>
                               (let f' = (if err = Some EOF then f OR eofFlagMask
                                          else f AND NOT eofFlagMask);
                                    m3 = updBlock (block buf) (\<lambda>c. c\<lparr>Flags := f' # fs\<rparr>) m2
                                in case SendWriteBuffer rw buf' m3 of
                                     (Parked w, m4) \<Rightarrow> Inl (Parked w, m4, r')
                                   | (Fault, m4) \<Rightarrow> Inl (Fault, m4, r')
                                   | (Returns (k, putErr), m4) \<Rightarrow>
                                       if putErr \<noteq> None then Inl (Returns (n', err), m4, r')
                                       else if err = Some EOF
                                         then Inl (Returns (n', None), m4, r')
                                       else if err \<noteq> None
                                         then Inl (Returns (n', err), m4, r')
                                       else Inr (n', m4, r')))))))"

text \<open>
  The loop itself has no bound of its own (a source that keeps answering no bytes and no
  error keeps it running while blocks are free), so it runs on fuel: \<open>None\<close> is a run
  that has not returned within the given number of passes.
\<close>

fun ReadFrom_fuel ::
  "nat \<Rightarrow> ReadWriteCloser \<Rightarrow> 'r reader \<Rightarrow> 'r \<Rightarrow> int \<Rightarrow> sharedMem
     \<Rightarrow> ((int \<times> error option) outcome \<times> sharedMem \<times> 'r) option" where
  "ReadFrom_fuel 0 rw rd r n m = None"
| "ReadFrom_fuel (Suc k) rw rd r n m =
     (case ReadFrom_iter rw rd r n m of
        Inl res \<Rightarrow> Some res
      | Inr (n', m', r') \<Rightarrow> ReadFrom_fuel k rw rd r' n' m')"

definition ReadFrom ::
  "nat \<Rightarrow> ReadWriteCloser \<Rightarrow> 'r reader \<Rightarrow> 'r \<Rightarrow> sharedMem
     \<Rightarrow> ((int \<times> error option) outcome \<times> sharedMem \<times> 'r) option" where
  "ReadFrom fuel rw rd r m = ReadFrom_fuel fuel rw rd r 0 m"

text \<open>
  An \<open>io.Writer\<close>: called with the bytes of \<open>buf.Data\<close>, it answers \<open>nn\<close>, an error
  value, and its next state.
\<close>

type_synonym 'w writer = "'w \<Rightarrow> byte list \<Rightarrow> (int \<times> error option) \<times> 'w"

definition WriteTo_iter ::
  "ReadWriteCloser \<Rightarrow> 'w writer \<Rightarrow> 'w \<Rightarrow> int \<Rightarrow> sharedMem
     \<Rightarrow> ((int \<times> error option) outcome \<times> sharedMem \<times> 'w) + (int \<times> sharedMem \<times> 'w)" where
  "WriteTo_iter rw wr w n m =
     (case GetReadBuffer rw m of
        (Parked s, m1) \<Rightarrow> Inl (Parked s, m1, w)
      | (Fault, m1) \<Rightarrow> Inl (Fault, m1, w)
      | (Returns (Inl e), m1) \<Rightarrow> Inl (Returns (n, Some e), m1, w)
      | (Returns (Inr buf), m1) \<Rightarrow>
          (case blockAt m1 (block buf) of
             None \<Rightarrow> Inl (Fault, m1, w)
           | Some b \<Rightarrow>
               (case wr w (Data b buf) of
                  ((nn, err), w') \<Rightarrow>
                    (let n' = n + nn in
                     case Flags b of
                       [] \<Rightarrow> Inl (Fault, m1, w')
                     | f # fs \<Rightarrow>
                         (let isEOF = (f AND eofFlagMask \<noteq> 0) in
                          case SendReadBuffer rw buf m1 of
                            (Parked s, m2) \<Rightarrow> Inl (Parked s, m2, w')
                          | (Fault, m2) \<Rightarrow> Inl (Fault, m2, w')
                          | (Returns (Some putErr), m2) \<Rightarrow>
                              Inl (Returns (n', Some putErr), m2, w')
                          | (Returns None, m2) \<Rightarrow>
                              if err \<noteq> None \<or> isEOF then Inl (Returns (n', err), m2, w')
                              else Inr (n', m2, w'))))))"

fun WriteTo_fuel ::
  "nat \<Rightarrow> ReadWriteCloser \<Rightarrow> 'w writer \<Rightarrow> 'w \<Rightarrow> int \<Rightarrow> sharedMem
     \<Rightarrow> ((int \<times> error option) outcome \<times> sharedMem \<times> 'w) option" where
  "WriteTo_fuel 0 rw wr w n m = None"
| "WriteTo_fuel (Suc k) rw wr w n m =
     (case WriteTo_iter rw wr w n m of
        Inl res \<Rightarrow> Some res
      | Inr (n', m', w') \<Rightarrow> WriteTo_fuel k rw wr w' n' m')"

definition WriteTo ::
  "nat \<Rightarrow> ReadWriteCloser \<Rightarrow> 'w writer \<Rightarrow> 'w \<Rightarrow> sharedMem
     \<Rightarrow> ((int \<times> error option) outcome \<times> sharedMem \<times> 'w) option" where
  "WriteTo fuel rw wr w m = WriteTo_fuel fuel rw wr w 0 m"

section \<open>Close\<close>

text \<open>
  \<open>Close\<close> sets the closed word by compare-and-swap and, the first time, unmaps the
  segment; \<open>munmap\<close> is what \<open>unix.Munmap\<close> answers.
\<close>

definition Close :: "ReadWriteCloser \<Rightarrow> error option \<Rightarrow> error option \<times> ReadWriteCloser" where
  "Close rw munmap =
     (let (swapped, c) = CompareAndSwapUint32 (closed rw) 0 1 in
      if \<not> swapped then (None, rw\<lparr>closed := c\<rparr>)
      else (munmap, rw\<lparr>closed := c\<rparr>))"

section \<open>A freshly created segment\<close>

text \<open>
  Modelled from the spec: segment creation is not part of the source. The spec
  initialises the shared header with \<open>Prev\<close>/\<open>Next\<close> wrapped circularly, all four
  pointers set to 0, \<open>DoneRead\<close>/\<open>DoneWrite\<close> cleared and both semaphores holding no
  token. \<open>nflags\<close> is the number of flag bytes of a block.
\<close>

definition initBlock :: "nat \<Rightarrow> nat \<Rightarrow> nat \<Rightarrow> nat \<Rightarrow> sharedBlock" where
  "initBlock blockCount blockSize nflags i =
     \<lparr>Next = of_nat ((i + 1) mod blockCount),
      Prev = of_nat ((i + blockCount - 1) mod blockCount),
      Size = 0, DoneRead = 0, DoneWrite = 0,
      Flags = replicate nflags 0,
      Payload = replicate blockSize 0\<rparr>"

definition initRing :: "nat \<Rightarrow> nat \<Rightarrow> nat \<Rightarrow> sharedMem" where
  "initRing blockCount blockSize nflags =
     \<lparr>BlockCount = of_nat blockCount, BlockSize = of_nat blockSize,
      ReadStart = 0, ReadEnd = 0, WriteStart = 0, WriteEnd = 0,
      SemSignal = \<lparr>tokens = 0, broken = False\<rparr>,
      SemAvail = \<lparr>tokens = 0, broken = False\<rparr>,
      blocks = map (initBlock blockCount blockSize nflags) [0..<blockCount]\<rparr>"

definition openEndpoint :: ReadWriteCloser where
  "openEndpoint = \<lparr>closed = 0\<rparr>"

section \<open>One pass of each loop\<close>

lemma GetReadBuffer_loop_invalid:
  "ReadStart m > BlockCount m \<Longrightarrow>
   GetReadBuffer_loop m = (Returns (Inl ErrInvalidSharedMemory), m)"
  by (subst GetReadBuffer_loop.simps) simp

lemma GetReadBuffer_loop_empty:
  "\<not> ReadStart m > BlockCount m \<Longrightarrow> ReadStart m = WriteEnd m \<Longrightarrow>
   GetReadBuffer_loop m =
     (case sem_Wait (SemSignal m) of
        WaitFailed \<Rightarrow> (Returns (Inl ErrSemaphore), m)
      | WouldBlock \<Rightarrow> (Parked OnSemSignal, m)
      | Acquired s \<Rightarrow> GetReadBuffer_loop (m\<lparr>SemSignal := s\<rparr>))"
  by (subst GetReadBuffer_loop.simps) (simp add: Let_def)

lemma GetReadBuffer_loop_fault:
  "\<not> ReadStart m > BlockCount m \<Longrightarrow> ReadStart m \<noteq> WriteEnd m \<Longrightarrow>
   blockAt m (unat (ReadStart m)) = None \<Longrightarrow>
   GetReadBuffer_loop m = (Fault, m)"
  by (subst GetReadBuffer_loop.simps) (simp add: Let_def)

lemma GetReadBuffer_loop_acquire:
  "\<not> ReadStart m > BlockCount m \<Longrightarrow> ReadStart m \<noteq> WriteEnd m \<Longrightarrow>
   blockAt m (unat (ReadStart m)) = Some b \<Longrightarrow>
   GetReadBuffer_loop m =
     (if sliceOK (unat (Size b)) (unat (BlockSize m))
      then (Returns (Inr \<lparr>block = unat (ReadStart m), writeB = False,
                           Data_len = unat (Size b), Data_cap = unat (BlockSize m)\<rparr>),
            m\<lparr>ReadStart := Next b\<rparr>)
      else (Fault, m\<lparr>ReadStart := Next b\<rparr>))"
  by (subst GetReadBuffer_loop.simps) (simp add: Let_def CompareAndSwapUint32_def)

lemma GetWriteBuffer_loop_invalid:
  "WriteStart m > BlockCount m \<Longrightarrow>
   GetWriteBuffer_loop m = (Returns (Inl ErrInvalidSharedMemory), m)"
  by (subst GetWriteBuffer_loop.simps) simp

lemma GetWriteBuffer_loop_fault:
  "\<not> WriteStart m > BlockCount m \<Longrightarrow> blockAt m (unat (WriteStart m)) = None \<Longrightarrow>
   GetWriteBuffer_loop m = (Fault, m)"
  by (subst GetWriteBuffer_loop.simps) (simp add: Let_def)

lemma GetWriteBuffer_loop_full:
  "\<not> WriteStart m > BlockCount m \<Longrightarrow> blockAt m (unat (WriteStart m)) = Some b \<Longrightarrow>
   Next b = ReadEnd m \<Longrightarrow>
   GetWriteBuffer_loop m =
     (case sem_Wait (SemAvail m) of
        WaitFailed \<Rightarrow> (Returns (Inl ErrSemaphore), m)
      | WouldBlock \<Rightarrow> (Parked OnSemAvail, m)
      | Acquired s \<Rightarrow> GetWriteBuffer_loop (m\<lparr>SemAvail := s\<rparr>))"
  by (subst GetWriteBuffer_loop.simps) (simp add: Let_def)

lemma GetWriteBuffer_loop_acquire:
  "\<not> WriteStart m > BlockCount m \<Longrightarrow> blockAt m (unat (WriteStart m)) = Some b \<Longrightarrow>
   Next b \<noteq> ReadEnd m \<Longrightarrow>
   GetWriteBuffer_loop m =
     (if sliceOK 0 (unat (BlockSize m))
      then (Returns (Inr \<lparr>block = unat (WriteStart m), writeB = True,
                           Data_len = 0, Data_cap = unat (BlockSize m)\<rparr>),
            m\<lparr>WriteStart := Next b\<rparr>)
      else (Fault, m\<lparr>WriteStart := Next b\<rparr>))"
  by (subst GetWriteBuffer_loop.simps) (simp add: Let_def CompareAndSwapUint32_def)

lemma SendReadBuffer_loop_invalid:
  "ReadEnd m > BlockCount m \<Longrightarrow>
   SendReadBuffer_loop m = (Returns (Some ErrInvalidSharedMemory), m)"
  by (subst SendReadBuffer_loop.simps) simp

lemma SendReadBuffer_loop_fault:
  "\<not> ReadEnd m > BlockCount m \<Longrightarrow> blockAt m (unat (ReadEnd m)) = None \<Longrightarrow>
   SendReadBuffer_loop m = (Fault, m)"
  by (subst SendReadBuffer_loop.simps) (simp add: Let_def)

lemma SendReadBuffer_loop_stop:
  "\<not> ReadEnd m > BlockCount m \<Longrightarrow> blockAt m (unat (ReadEnd m)) = Some b \<Longrightarrow>
   DoneRead b \<noteq> 1 \<Longrightarrow>
   SendReadBuffer_loop m = (Returns None, m)"
  by (subst SendReadBuffer_loop.simps) (simp add: Let_def CompareAndSwapUint32_def)

lemma SendReadBuffer_loop_advance:
  "\<not> ReadEnd m > BlockCount m \<Longrightarrow> blockAt m (unat (ReadEnd m)) = Some b \<Longrightarrow>
   DoneRead b = 1 \<Longrightarrow>
   m2 = (updBlock (unat (ReadEnd m)) (\<lambda>c. c\<lparr>DoneRead := 0\<rparr>) m)\<lparr>ReadEnd := Next b\<rparr> \<Longrightarrow>
   SendReadBuffer_loop m =
     (if Prev b = WriteStart m then
        (case sem_Post (SemAvail m) of
           None \<Rightarrow> (Returns (Some ErrSemaphore), m2)
         | Some s \<Rightarrow> SendReadBuffer_loop (m2\<lparr>SemAvail := s\<rparr>))
      else SendReadBuffer_loop m2)"
  by (subst SendReadBuffer_loop.simps)
     (clarsimp simp: Let_def CompareAndSwapUint32_def updBlock_def split: option.splits)

lemma SendWriteBuffer_loop_invalid:
  "WriteEnd m > BlockCount m \<Longrightarrow>
   SendWriteBuffer_loop n m = (Returns (n, Some ErrInvalidSharedMemory), m)"
  by (subst SendWriteBuffer_loop.simps) simp

lemma SendWriteBuffer_loop_fault:
  "\<not> WriteEnd m > BlockCount m \<Longrightarrow> blockAt m (unat (WriteEnd m)) = None \<Longrightarrow>
   SendWriteBuffer_loop n m = (Fault, m)"
  by (subst SendWriteBuffer_loop.simps) (simp add: Let_def)

lemma SendWriteBuffer_loop_stop:
  "\<not> WriteEnd m > BlockCount m \<Longrightarrow> blockAt m (unat (WriteEnd m)) = Some b \<Longrightarrow>
   DoneWrite b \<noteq> 1 \<Longrightarrow>
   SendWriteBuffer_loop n m = (Returns (n, None), m)"
  by (subst SendWriteBuffer_loop.simps) (simp add: Let_def CompareAndSwapUint32_def)


section \<open>Sources and sinks for concrete runs\<close>

text \<open>
  A reader over a byte string (as \<open>bytes.Reader\<close>): it hands out what fits and answers
  \<open>EOF\<close> once nothing is left. A writer that appends to a byte string.
\<close>

definition bytesReader :: "byte list reader" where
  "bytesReader xs cap =
     (if xs = [] then (([], Some EOF), []) else ((take cap xs, None), drop cap xs))"

definition bytesWriter :: "byte list writer" where
  "bytesWriter acc d = ((int (length d), None), acc @ d)"

definition hello :: "byte list" where
  "hello = [0x68, 0x65, 0x6c, 0x6c, 0x6f]"

section \<open>Closed endpoints\<close>

lemma Close_sets_closed: "closed (snd (Close rw munmap)) \<noteq> 0"
  by (simp add: Close_def CompareAndSwapUint32_def)

text \<open>
  C9. Once the closed word of an endpoint is set (as \<open>Close\<close> leaves it), each of the
  four buffer operations fails with \<open>ErrClosedPipe\<close> and returns the ring as it found
  it, and so do \<open>Read\<close>, \<open>Write\<close>, \<open>ReadFrom\<close> and \<open>WriteTo\<close>, which start with a
  buffer operation; the stream operations report 0 bytes.
\<close>

theorem closed_endpoint_rejects:
  assumes "closed rw \<noteq> 0"
  shows "GetReadBuffer rw m = (Returns (Inl ErrClosedPipe), m)
       \<and> SendReadBuffer rw buf m = (Returns (Some ErrClosedPipe), m)
       \<and> GetWriteBuffer rw m = (Returns (Inl ErrClosedPipe), m)
       \<and> SendWriteBuffer rw buf m = (Returns (0, Some ErrClosedPipe), m)
       \<and> Read rw p m = (Returns (0, Some ErrClosedPipe, p), m)
       \<and> Write rw p m = (Returns (0, Some ErrClosedPipe), m)
       \<and> ReadFrom (Suc k) rw rd r m = Some (Returns (0, Some ErrClosedPipe), m, r)
       \<and> WriteTo (Suc k) rw wr w m = Some (Returns (0, Some ErrClosedPipe), m, w)"
  using assms
  by (simp add: GetReadBuffer_def SendReadBuffer_def GetWriteBuffer_def SendWriteBuffer_def
        Read_def Write_def ReadFrom_def WriteTo_def ReadFrom_iter_def WriteTo_iter_def
        andThen_def)

theorem closed_endpoint_rejects_witness:
  "closed (snd (Close openEndpoint None)) \<noteq> 0
   \<and> GetReadBuffer (snd (Close openEndpoint None)) (initRing 4 64 8)
       = (Returns (Inl ErrClosedPipe), initRing 4 64 8)
   \<and> SendWriteBuffer (snd (Close openEndpoint None))
        \<lparr>block = 0, writeB = True, Data_len = 5, Data_cap = 64\<rparr> (initRing 4 64 8)
       = (Returns (0, Some ErrClosedPipe), initRing 4 64 8)
   \<and> Write (snd (Close openEndpoint None)) hello (initRing 4 64 8)
       = (Returns (0, Some ErrClosedPipe), initRing 4 64 8)
   \<and> ReadFrom (Suc 0) (snd (Close openEndpoint None)) bytesReader hello (initRing 4 64 8)
       = Some (Returns (0, Some ErrClosedPipe), initRing 4 64 8, hello)
   \<and> WriteTo (Suc 0) (snd (Close openEndpoint None)) bytesWriter [] (initRing 4 64 8)
       = Some (Returns (0, Some ErrClosedPipe), initRing 4 64 8, [])"
proof -
  have c: "closed (snd (Close openEndpoint None)) \<noteq> 0"
    by (simp add: Close_def openEndpoint_def CompareAndSwapUint32_def)
  show ?thesis
    using c closed_endpoint_rejects
      [OF c, where m = "initRing 4 64 8"
         and buf = "\<lparr>block = 0, writeB = True, Data_len = 5, Data_cap = 64\<rparr>"
         and p = hello and k = 0 and rd = bytesReader and r = hello
         and wr = bytesWriter and w = "[]"]
    by simp
qed

section \<open>Acquiring on a full or an empty ring\<close>

lemma blockAt_header [simp]:
  "blockAt (m\<lparr>SemAvail := s\<rparr>) i = blockAt m i"
  "blockAt (m\<lparr>SemSignal := s\<rparr>) i = blockAt m i"
  "blockAt (m\<lparr>ReadStart := v\<rparr>) i = blockAt m i"
  "blockAt (m\<lparr>ReadEnd := v\<rparr>) i = blockAt m i"
  "blockAt (m\<lparr>WriteStart := v\<rparr>) i = blockAt m i"
  "blockAt (m\<lparr>WriteEnd := v\<rparr>) i = blockAt m i"
  by (simp_all add: blockAt_def)

text \<open>
  With no peer running, a retry of the acquire loop finds the ring as full (or as empty)
  as before: the call uses up the tokens of the semaphore and is suspended.
\<close>

lemma GetWriteBuffer_loop_full_result:
  assumes "\<not> WriteStart m > BlockCount m"
    and "blockAt m (unat (WriteStart m)) = Some b"
    and "Next b = ReadEnd m"
  shows "GetWriteBuffer_loop m =
           (if broken (SemAvail m) then (Returns (Inl ErrSemaphore), m)
            else (Parked OnSemAvail, m\<lparr>SemAvail := (SemAvail m)\<lparr>tokens := 0\<rparr>\<rparr>))"
  using assms
proof (induction k \<equiv> "tokens (SemAvail m)" arbitrary: m)
  case 0
  then show ?case
    by (simp add: GetWriteBuffer_loop_full [where b = b] sem_Wait_def)
next
  case (Suc k)
  let ?m' = "m\<lparr>SemAvail := (SemAvail m)\<lparr>tokens := tokens (SemAvail m) - 1\<rparr>\<rparr>"
  show ?case
  proof (cases "broken (SemAvail m)")
    case True
    with Suc.prems show ?thesis
      by (simp add: GetWriteBuffer_loop_full [where b = b] sem_Wait_def)
  next
    case False
    have step: "GetWriteBuffer_loop m = GetWriteBuffer_loop ?m'"
      using Suc.prems Suc.hyps(2) False
      by (simp add: GetWriteBuffer_loop_full [where b = b] sem_Wait_def)
    have "GetWriteBuffer_loop ?m' =
            (if broken (SemAvail ?m') then (Returns (Inl ErrSemaphore), ?m')
             else (Parked OnSemAvail, ?m'\<lparr>SemAvail := (SemAvail ?m')\<lparr>tokens := 0\<rparr>\<rparr>))"
      using Suc.prems Suc.hyps(2) by (intro Suc.hyps(1)) simp_all
    with step False show ?thesis by simp
  qed
qed

lemma GetReadBuffer_loop_empty_result:
  assumes "\<not> ReadStart m > BlockCount m"
    and "ReadStart m = WriteEnd m"
  shows "GetReadBuffer_loop m =
           (if broken (SemSignal m) then (Returns (Inl ErrSemaphore), m)
            else (Parked OnSemSignal, m\<lparr>SemSignal := (SemSignal m)\<lparr>tokens := 0\<rparr>\<rparr>))"
  using assms
proof (induction k \<equiv> "tokens (SemSignal m)" arbitrary: m)
  case 0
  then show ?case
    by (simp add: GetReadBuffer_loop_empty sem_Wait_def)
next
  case (Suc k)
  let ?m' = "m\<lparr>SemSignal := (SemSignal m)\<lparr>tokens := tokens (SemSignal m) - 1\<rparr>\<rparr>"
  show ?case
  proof (cases "broken (SemSignal m)")
    case True
    with Suc.prems show ?thesis
      by (simp add: GetReadBuffer_loop_empty sem_Wait_def)
  next
    case False
    have step: "GetReadBuffer_loop m = GetReadBuffer_loop ?m'"
      using Suc.prems Suc.hyps(2) False
      by (simp add: GetReadBuffer_loop_empty sem_Wait_def)
    have "GetReadBuffer_loop ?m' =
            (if broken (SemSignal ?m') then (Returns (Inl ErrSemaphore), ?m')
             else (Parked OnSemSignal, ?m'\<lparr>SemSignal := (SemSignal ?m')\<lparr>tokens := 0\<rparr>\<rparr>))"
      using Suc.prems Suc.hyps(2) by (intro Suc.hyps(1)) simp_all
    with step False show ?thesis by simp
  qed
qed

text \<open>What a successful acquire tells about the ring it started from.\<close>

lemma GetWriteBuffer_loop_lease:
  assumes "GetWriteBuffer_loop m = (Returns (Inr buf), m')"
  shows "block buf = unat (WriteStart m) \<and> block buf < length (blocks m)
       \<and> writeB buf \<and> Data_len buf = 0 \<and> Data_cap buf = unat (BlockSize m)
       \<and> Data_cap buf \<le> 2 ^ 30
       \<and> Next (blocks m ! block buf) \<noteq> ReadEnd m
       \<and> m' = m\<lparr>WriteStart := Next (blocks m ! block buf)\<rparr>"
proof (cases "WriteStart m > BlockCount m")
  case True
  with assms show ?thesis by (simp add: GetWriteBuffer_loop_invalid)
next
  case valid: False
  show ?thesis
  proof (cases "blockAt m (unat (WriteStart m))")
    case None
    with assms valid show ?thesis by (simp add: GetWriteBuffer_loop_fault)
  next
    case (Some b)
    show ?thesis
    proof (cases "Next b = ReadEnd m")
      case True
      with assms valid Some show ?thesis
        by (simp add: GetWriteBuffer_loop_full_result [where b = b] split: if_splits)
    next
      case False
      with assms valid Some show ?thesis
        by (auto simp: GetWriteBuffer_loop_acquire [where b = b] blockAt_def sliceOK_def
                 split: if_splits)
    qed
  qed
qed


section \<open>Acquire protocols\<close>



definition helloBlock :: sharedBlock where
  "helloBlock =
     (initBlock 4 64 8 0)\<lparr>Size := 5, Flags := 1 # replicate 7 0,
                            Payload := hello @ replicate 59 0\<rparr>"

definition helloRing :: sharedMem where
  "helloRing =
     (initRing 4 64 8)
       \<lparr>WriteStart := 1, WriteEnd := 1, SemSignal := \<lparr>tokens = 1, broken = False\<rparr>,
        blocks := (blocks (initRing 4 64 8))[0 := helloBlock]\<rparr>"




section \<open>A proof rule for the release loops\<close>

lemma SendReadBuffer_loop_dec:
  "blockAt m i = Some b \<Longrightarrow> DoneRead b = 1 \<Longrightarrow>
   length (filter (\<lambda>b. DoneRead b = 1) (blocks (updBlock i (\<lambda>c. c\<lparr>DoneRead := 0\<rparr>) m)))
     < length (filter (\<lambda>b. DoneRead b = 1) (blocks m))"
  by (auto simp: blockAt_def updBlock_def split: if_splits intro!: filter_update_less)


lemma SendReadBuffer_loop_rule:
  assumes init: "P m"
    and inv: "\<And>m. P m \<Longrightarrow> ReadEnd m > BlockCount m \<Longrightarrow>
                Q (Returns (Some ErrInvalidSharedMemory), m)"
    and flt: "\<And>m. P m \<Longrightarrow> \<not> ReadEnd m > BlockCount m \<Longrightarrow>
                blockAt m (unat (ReadEnd m)) = None \<Longrightarrow> Q (Fault, m)"
    and stp: "\<And>m b. P m \<Longrightarrow> \<not> ReadEnd m > BlockCount m \<Longrightarrow>
                blockAt m (unat (ReadEnd m)) = Some b \<Longrightarrow> DoneRead b \<noteq> 1 \<Longrightarrow>
                Q (Returns None, m)"
    and adv: "\<And>m b m2. P m \<Longrightarrow> \<not> ReadEnd m > BlockCount m \<Longrightarrow>
                blockAt m (unat (ReadEnd m)) = Some b \<Longrightarrow> DoneRead b = 1 \<Longrightarrow>
                m2 = (updBlock (unat (ReadEnd m)) (\<lambda>c. c\<lparr>DoneRead := 0\<rparr>) m)
                       \<lparr>ReadEnd := Next b\<rparr> \<Longrightarrow>
                Prev b \<noteq> WriteStart m \<Longrightarrow> P m2"
    and pst: "\<And>m b m2 s. P m \<Longrightarrow> \<not> ReadEnd m > BlockCount m \<Longrightarrow>
                blockAt m (unat (ReadEnd m)) = Some b \<Longrightarrow> DoneRead b = 1 \<Longrightarrow>
                m2 = (updBlock (unat (ReadEnd m)) (\<lambda>c. c\<lparr>DoneRead := 0\<rparr>) m)
                       \<lparr>ReadEnd := Next b\<rparr> \<Longrightarrow>
                Prev b = WriteStart m \<Longrightarrow> sem_Post (SemAvail m) = Some s \<Longrightarrow>
                P (m2\<lparr>SemAvail := s\<rparr>)"
    and sem: "\<And>m b m2. P m \<Longrightarrow> \<not> ReadEnd m > BlockCount m \<Longrightarrow>
                blockAt m (unat (ReadEnd m)) = Some b \<Longrightarrow> DoneRead b = 1 \<Longrightarrow>
                m2 = (updBlock (unat (ReadEnd m)) (\<lambda>c. c\<lparr>DoneRead := 0\<rparr>) m)
                       \<lparr>ReadEnd := Next b\<rparr> \<Longrightarrow>
                Prev b = WriteStart m \<Longrightarrow> sem_Post (SemAvail m) = None \<Longrightarrow>
                Q (Returns (Some ErrSemaphore), m2)"
  shows "Q (SendReadBuffer_loop m)"
  using init
proof (induction k \<equiv> "length (filter (\<lambda>b. DoneRead b = 1) (blocks m))"
       arbitrary: m rule: less_induct)
  case less
  show ?case
  proof (cases "ReadEnd m > BlockCount m")
    case True
    with inv [OF less.prems] show ?thesis by (simp add: SendReadBuffer_loop_invalid)
  next
    case valid: False
    show ?thesis
    proof (cases "blockAt m (unat (ReadEnd m))")
      case None
      with flt [OF less.prems valid] valid show ?thesis
        by (simp add: SendReadBuffer_loop_fault)
    next
      case (Some b)
      show ?thesis
      proof (cases "DoneRead b = 1")
        case False
        with stp [OF less.prems valid Some] valid Some show ?thesis
          by (simp add: SendReadBuffer_loop_stop [where b = b])
      next
        case True
        define m2 where
          "m2 = (updBlock (unat (ReadEnd m)) (\<lambda>c. c\<lparr>DoneRead := 0\<rparr>) m)\<lparr>ReadEnd := Next b\<rparr>"
        have dec: "length (filter (\<lambda>b. DoneRead b = 1) (blocks m2))
                     < length (filter (\<lambda>b. DoneRead b = 1) (blocks m))"
          using SendReadBuffer_loop_dec [OF Some True] by (simp add: m2_def)
        have IH: "Q (SendReadBuffer_loop m')"
          if "P m'" "blocks m' = blocks m2" for m'
          using less.hyps [of m'] that dec by simp
        note step = SendReadBuffer_loop_advance [OF valid Some True m2_def]
        show ?thesis
        proof (cases "Prev b = WriteStart m")
          case False
          from adv [OF less.prems valid Some True m2_def False] have "P m2" .
          from IH [OF this] step False show ?thesis by simp
        next
          case ws: True
          show ?thesis
          proof (cases "sem_Post (SemAvail m)")
            case None
            from sem [OF less.prems valid Some True m2_def ws None] step ws None
            show ?thesis by simp
          next
            case (Some s)
            from pst [OF less.prems valid \<open>blockAt m (unat (ReadEnd m)) = Some b\<close>
                        True m2_def ws Some]
            have "P (m2\<lparr>SemAvail := s\<rparr>)" .
            from IH [OF this] step ws Some show ?thesis by simp
          qed
        qed
      qed
    qed
  qed
qed

section \<open>What the release loops leave alone\<close>


definition readerFrame :: "sharedMem \<Rightarrow> sharedMem \<Rightarrow> bool" where
  "readerFrame m m' =
     (BlockCount m' = BlockCount m \<and> BlockSize m' = BlockSize m
      \<and> ReadStart m' = ReadStart m \<and> WriteEnd m' = WriteEnd m
      \<and> WriteStart m' = WriteStart m \<and> SemSignal m' = SemSignal m
      \<and> broken (SemAvail m') = broken (SemAvail m)
      \<and> map (\<lambda>c. c\<lparr>DoneRead := 0\<rparr>) (blocks m') = map (\<lambda>c. c\<lparr>DoneRead := 0\<rparr>) (blocks m))"

lemma map_update_same:
  "i < length xs \<Longrightarrow> f (g (xs ! i)) = f (xs ! i) \<Longrightarrow> map f (xs[i := g (xs ! i)]) = map f xs"
  by (simp add: map_update list_update_same_conv)


lemma readerFrame_advance:
  assumes "readerFrame m0 m" and "blockAt m (unat (ReadEnd m)) = Some b"
  shows "readerFrame m0
           ((updBlock (unat (ReadEnd m)) (\<lambda>c. c\<lparr>DoneRead := 0\<rparr>) m)\<lparr>ReadEnd := v\<rparr>)"
proof -
  have "unat (ReadEnd m) < length (blocks m)"
    using assms(2) by (simp add: blockAt_def split: if_splits)
  then have "map (\<lambda>c. c\<lparr>DoneRead := 0\<rparr>)
               ((blocks m)[unat (ReadEnd m) := (blocks m ! unat (ReadEnd m))\<lparr>DoneRead := 0\<rparr>])
             = map (\<lambda>c. c\<lparr>DoneRead := 0\<rparr>) (blocks m)"
    by (intro map_update_same) simp_all
  with assms(1) show ?thesis
    by (simp add: readerFrame_def updBlock_def)
qed


lemma readerFrame_post:
  "readerFrame m0 m \<Longrightarrow> sem_Post (SemAvail m) = Some s \<Longrightarrow>
   readerFrame m0 (m\<lparr>SemAvail := s\<rparr>)"
  by (auto simp: readerFrame_def sem_Post_def split: if_splits)


lemma SendReadBuffer_loop_frame:
  "(fst (SendReadBuffer_loop m) = Fault
      \<or> (\<exists>e. fst (SendReadBuffer_loop m) = Returns e))
   \<and> readerFrame m (snd (SendReadBuffer_loop m))"
proof (rule SendReadBuffer_loop_rule
         [where P = "readerFrame m"
            and Q = "\<lambda>r. (fst r = Fault \<or> (\<exists>e. fst r = Returns e)) \<and> readerFrame m (snd r)"],
       goal_cases)
  case 1
  show ?case by (simp add: readerFrame_def)
next
  case (5 m1 b m2)
  then show ?case using readerFrame_advance [of m m1 b] by simp
next
  case (6 m1 b m2 s)
  have "sem_Post (SemAvail ((updBlock (unat (ReadEnd m1)) (\<lambda>c. c\<lparr>DoneRead := 0\<rparr>) m1)
                               \<lparr>ReadEnd := Next b\<rparr>)) = Some s"
    using 6(7) by (simp add: updBlock_def)
  with 6 show ?case
    using readerFrame_post [OF readerFrame_advance [of m m1 b "Next b"], of s] by simp
next
  case (7 m1 b m2)
  then show ?case using readerFrame_advance [of m m1 b] by simp
qed simp_all


lemma readerFrame_block:
  assumes "readerFrame m m'" and "i < length (blocks m)"
  shows "i < length (blocks m') \<and> Size (blocks m' ! i) = Size (blocks m ! i)
       \<and> Payload (blocks m' ! i) = Payload (blocks m ! i)
       \<and> Flags (blocks m' ! i) = Flags (blocks m ! i)
       \<and> Next (blocks m' ! i) = Next (blocks m ! i)
       \<and> Prev (blocks m' ! i) = Prev (blocks m ! i)
       \<and> DoneWrite (blocks m' ! i) = DoneWrite (blocks m ! i)"
proof -
  let ?f = "\<lambda>c::sharedBlock. c\<lparr>DoneRead := 0\<rparr>"
  have eq: "map ?f (blocks m') = map ?f (blocks m)"
    using assms(1) by (simp add: readerFrame_def)
  then have len: "length (blocks m') = length (blocks m)"
    by (metis length_map)
  have "map ?f (blocks m') ! i = map ?f (blocks m) ! i"
    using eq by simp
  then have "?f (blocks m' ! i) = ?f (blocks m ! i)"
    using assms(2) len by simp
  then have "Size (?f (blocks m' ! i)) = Size (?f (blocks m ! i))"
    "Payload (?f (blocks m' ! i)) = Payload (?f (blocks m ! i))"
    "Flags (?f (blocks m' ! i)) = Flags (?f (blocks m ! i))"
    "Next (?f (blocks m' ! i)) = Next (?f (blocks m ! i))"
    "Prev (?f (blocks m' ! i)) = Prev (?f (blocks m ! i))"
    "DoneWrite (?f (blocks m' ! i)) = DoneWrite (?f (blocks m ! i))"
    by simp_all
  with len assms(2) show ?thesis by simp
qed

section \<open>The published block of the concrete ring\<close>

definition helloLease :: Buffer where
  "helloLease = \<lparr>block = 0, writeB = True, Data_len = 5, Data_cap = 64\<rparr>"


lemma blocks_initRing_4:
  "blocks (initRing 4 64 8) =
     [initBlock 4 64 8 0, initBlock 4 64 8 1, initBlock 4 64 8 2, initBlock 4 64 8 3]"
proof -
  have "[0..<4] = [0, 1, 2, 3::nat]"
    by (simp add: upt_rec)
  then show ?thesis by (simp add: initRing_def)
qed



section \<open>Buffer handles\<close>






section \<open>ReadFrom and the error of the release\<close>

text \<open>
  C10. In a pass of \<open>ReadFrom\<close> in which the write buffer is acquired, the source
  answers \<open>nn\<close> bytes (at most the capacity) with a nil error, and \<open>SendWriteBuffer\<close>
  then fails with an error \<open>e\<close>, \<open>ReadFrom\<close> returns the byte count so far plus
  \<open>nn\<close> together with a nil error: the branch for a failed release returns the source's
  error, not \<open>e\<close>.
\<close>

theorem ReadFrom_drops_release_error:
  assumes "GetWriteBuffer rw m = (Returns (Inr buf), mA)"
    and "Flags (blocks mA ! block buf) = f # fs"
    and "rd r (Data_cap buf) = ((data, None), r')"
    and "length data \<le> Data_cap buf"
    and "SendWriteBuffer rw (buf\<lparr>Data_len := length data\<rparr>)
           (updBlock (block buf) (\<lambda>c. c\<lparr>Flags := (f AND NOT eofFlagMask) # fs\<rparr>)
             (updBlock (block buf)
                (\<lambda>c. c\<lparr>Payload := data @ drop (length data) (Payload c)\<rparr>) mA))
         = (Returns (k, Some e), mB)"
  shows "ReadFrom_fuel (Suc fuel) rw rd r n m
           = Some (Returns (n + int (length data), None), mB, r')"
proof -
  have "GetWriteBuffer_loop m = (Returns (Inr buf), mA)"
    using assms(1) by (simp add: GetWriteBuffer_def split: if_splits)
  from GetWriteBuffer_loop_lease [OF this]
  have "block buf < length (blocks mA)" by simp
  then have b: "blockAt mA (block buf) = Some (blocks mA ! block buf)"
    by (simp add: blockAt_def)
  have "ReadFrom_iter rw rd r n m = Inl (Returns (n + int (length data), None), mB, r')"
    using assms b by (simp add: ReadFrom_iter_def Let_def)
  then show ?thesis by simp
qed

text \<open>
  A ring whose \<open>WriteEnd\<close> a peer has overwritten with 5 (there are 4 blocks): the
  acquire succeeds, the release fails with \<open>ErrInvalidSharedMemory\<close>.
\<close>

lemma replicate_8: "replicate 8 x = x # replicate 7 x"
  by (simp add: numeral_eq_Suc)

definition corruptEndRing :: sharedMem where
  "corruptEndRing = (initRing 4 64 8)\<lparr>WriteEnd := 5\<rparr>"

theorem ReadFrom_drops_release_error_witness:
  "fst (GetWriteBuffer openEndpoint corruptEndRing)
     = Returns (Inr \<lparr>block = 0, writeB = True, Data_len = 0, Data_cap = 64\<rparr>)
   \<and> bytesReader hello 64 = ((hello, None), [])
   \<and> map_option fst (ReadFrom_fuel (Suc 0) openEndpoint bytesReader hello 0 corruptEndRing)
       = Some (Returns (5, None))"
proof -
  let ?buf = "\<lparr>block = 0, writeB = True, Data_len = 0, Data_cap = 64\<rparr>"
  let ?mA = "corruptEndRing\<lparr>WriteStart := 1\<rparr>"
  let ?m3 = "updBlock (block ?buf) (\<lambda>c. c\<lparr>Flags := (0 AND NOT eofFlagMask) # replicate 7 0\<rparr>)
               (updBlock (block ?buf)
                  (\<lambda>c. c\<lparr>Payload := hello @ drop (length hello) (Payload c)\<rparr>) ?mA)"
  let ?m0 = "updBlock 0 (\<lambda>c. c\<lparr>DoneWrite := 1\<rparr>)
               (updBlock 0 (\<lambda>c. c\<lparr>Size := of_nat (length hello)\<rparr>) ?m3)"
  have b: "blockAt corruptEndRing (unat (WriteStart corruptEndRing)) = Some (initBlock 4 64 8 0)"
    by (simp add: corruptEndRing_def initRing_def blockAt_def)
  have a1: "GetWriteBuffer openEndpoint corruptEndRing = (Returns (Inr ?buf), ?mA)"
    using GetWriteBuffer_loop_acquire [OF _ b]
    by (simp add: GetWriteBuffer_def openEndpoint_def sliceOK_def)
       (simp add: corruptEndRing_def initRing_def initBlock_def)
  have a2: "Flags (blocks ?mA ! block ?buf) = 0 # replicate 7 0"
    by (simp add: corruptEndRing_def blocks_initRing_4 initBlock_def replicate_8)
  have a3: "bytesReader hello (Data_cap ?buf) = ((hello, None), [])"
    by (simp add: bytesReader_def hello_def)
  have a4: "length hello \<le> Data_cap ?buf"
    by (simp add: hello_def)
  have "WriteEnd ?m0 > BlockCount ?m0"
    by (simp add: updBlock_def corruptEndRing_def initRing_def)
  then have "SendWriteBuffer_loop (length hello) ?m0
               = (Returns (length hello, Some ErrInvalidSharedMemory), ?m0)"
    by (rule SendWriteBuffer_loop_invalid)
  then have a5: "SendWriteBuffer openEndpoint (?buf\<lparr>Data_len := length hello\<rparr>) ?m3
                   = (Returns (length hello, Some ErrInvalidSharedMemory), ?m0)"
    by (simp add: SendWriteBuffer_def openEndpoint_def blockAt_def updBlock_def
          corruptEndRing_def blocks_initRing_4)
  show ?thesis
    using a1 a3 ReadFrom_drops_release_error
      [where rd = bytesReader and r = hello and data = hello and fuel = 0 and n = 0,
       OF a1 a2 a3 a4 a5]
    by (simp add: hello_def)
qed

section \<open>Validation of the ring pointers\<close>

lemma GetReadBuffer_loop_ignores_WriteStart:
  "GetReadBuffer_loop (m\<lparr>WriteStart := v\<rparr>)
     = (fst (GetReadBuffer_loop m), (snd (GetReadBuffer_loop m))\<lparr>WriteStart := v\<rparr>)"
proof (cases "ReadStart m > BlockCount m")
  case True
  then show ?thesis by (simp add: GetReadBuffer_loop_invalid)
next
  case valid: False
  show ?thesis
  proof (cases "ReadStart m = WriteEnd m")
    case True
    with valid show ?thesis by (simp add: GetReadBuffer_loop_empty_result)
  next
    case ne: False
    show ?thesis
    proof (cases "blockAt m (unat (ReadStart m))")
      case None
      with valid ne show ?thesis by (simp add: GetReadBuffer_loop_fault)
    next
      case (Some b)
      with valid ne show ?thesis
        by (simp add: GetReadBuffer_loop_acquire [where b = b])
    qed
  qed
qed

lemma GetReadBuffer_loop_accepts:
  assumes "\<not> ReadStart m > BlockCount m"
  shows "fst (GetReadBuffer_loop m) \<noteq> Returns (Inl ErrInvalidSharedMemory)"
proof (cases "ReadStart m = WriteEnd m")
  case True
  with assms show ?thesis by (simp add: GetReadBuffer_loop_empty_result)
next
  case ne: False
  show ?thesis
  proof (cases "blockAt m (unat (ReadStart m))")
    case None
    with assms ne show ?thesis by (simp add: GetReadBuffer_loop_fault)
  next
    case (Some b)
    with assms ne show ?thesis
      by (simp add: GetReadBuffer_loop_acquire [where b = b])
  qed
qed

lemma GetWriteBuffer_loop_accepts:
  assumes "\<not> WriteStart m > BlockCount m"
  shows "fst (GetWriteBuffer_loop m) \<noteq> Returns (Inl ErrInvalidSharedMemory)"
proof (cases "blockAt m (unat (WriteStart m))")
  case None
  with assms show ?thesis by (simp add: GetWriteBuffer_loop_fault)
next
  case (Some b)
  show ?thesis
  proof (cases "Next b = ReadEnd m")
    case True
    with assms Some show ?thesis
      by (simp add: GetWriteBuffer_loop_full_result [where b = b])
  next
    case False
    with assms Some show ?thesis
      by (simp add: GetWriteBuffer_loop_acquire [where b = b])
  qed
qed

text \<open>
  C8, as the code has it. Each buffer operation on an open endpoint checks the one ring
  pointer it loads itself: \<open>ReadStart\<close> in \<open>GetReadBuffer\<close>, \<open>WriteStart\<close> in
  \<open>GetWriteBuffer\<close>, \<open>ReadEnd\<close> in \<open>SendReadBuffer\<close>, \<open>WriteEnd\<close> in
  \<open>SendWriteBuffer\<close>. A value strictly greater than \<open>BlockCount\<close> makes the operation
  fail with \<open>ErrInvalidSharedMemory\<close>. A value equal to \<open>BlockCount\<close> passes the check:
  the acquire operations do not answer \<open>ErrInvalidSharedMemory\<close>, and the release loops
  go on to the block at that index (a fault where no block is mapped there, a plain
  success where the block found there is not finished). \<open>GetReadBuffer\<close> does not load
  \<open>WriteStart\<close>: its result is the same whatever \<open>WriteStart\<close> holds.
\<close>

theorem pointer_validation:
  "(closed rw = 0 \<and> ReadStart m > BlockCount m \<longrightarrow>
      GetReadBuffer rw m = (Returns (Inl ErrInvalidSharedMemory), m))
   \<and> (closed rw = 0 \<and> WriteStart m > BlockCount m \<longrightarrow>
      GetWriteBuffer rw m = (Returns (Inl ErrInvalidSharedMemory), m))
   \<and> (closed rw = 0 \<and> \<not> writeB rb \<and> block rb < length (blocks m)
        \<and> ReadEnd m > BlockCount m \<longrightarrow>
      fst (SendReadBuffer rw rb m) = Returns (Some ErrInvalidSharedMemory))
   \<and> (closed rw = 0 \<and> writeB wb \<and> block wb < length (blocks m)
        \<and> WriteEnd m > BlockCount m \<longrightarrow>
      fst (SendWriteBuffer rw wb m) = Returns (Data_len wb, Some ErrInvalidSharedMemory))
   \<and> (closed rw = 0 \<and> ReadStart m = BlockCount m \<longrightarrow>
      fst (GetReadBuffer rw m) \<noteq> Returns (Inl ErrInvalidSharedMemory))
   \<and> (closed rw = 0 \<and> WriteStart m = BlockCount m \<longrightarrow>
      fst (GetWriteBuffer rw m) \<noteq> Returns (Inl ErrInvalidSharedMemory))
   \<and> (ReadEnd m = BlockCount m \<and> blockAt m (unat (BlockCount m)) = None \<longrightarrow>
      SendReadBuffer_loop m = (Fault, m))
   \<and> (ReadEnd m = BlockCount m \<and> blockAt m (unat (BlockCount m)) = Some b
        \<and> DoneRead b \<noteq> 1 \<longrightarrow>
      SendReadBuffer_loop m = (Returns None, m))
   \<and> (WriteEnd m = BlockCount m \<and> blockAt m (unat (BlockCount m)) = None \<longrightarrow>
      SendWriteBuffer_loop n m = (Fault, m))
   \<and> (WriteEnd m = BlockCount m \<and> blockAt m (unat (BlockCount m)) = Some b
        \<and> DoneWrite b \<noteq> 1 \<longrightarrow>
      SendWriteBuffer_loop n m = (Returns (n, None), m))
   \<and> GetReadBuffer rw (m\<lparr>WriteStart := v\<rparr>)
       = (fst (GetReadBuffer rw m), (snd (GetReadBuffer rw m))\<lparr>WriteStart := v\<rparr>)"
proof -
  have send_r: "fst (SendReadBuffer rw rb m) = Returns (Some ErrInvalidSharedMemory)"
    if "closed rw = 0" "\<not> writeB rb" "block rb < length (blocks m)" "ReadEnd m > BlockCount m"
    using that
    by (simp add: SendReadBuffer_def blockAt_def SendReadBuffer_loop_invalid updBlock_def)
  have send_w: "fst (SendWriteBuffer rw wb m)
                  = Returns (Data_len wb, Some ErrInvalidSharedMemory)"
    if "closed rw = 0" "writeB wb" "block wb < length (blocks m)" "WriteEnd m > BlockCount m"
    using that
    by (simp add: SendWriteBuffer_def blockAt_def SendWriteBuffer_loop_invalid updBlock_def)
  have eq_r: "SendReadBuffer_loop m = (Fault, m)"
    if "ReadEnd m = BlockCount m" "blockAt m (unat (BlockCount m)) = None"
    using that SendReadBuffer_loop_fault [of m] by simp
  have eq_r': "SendReadBuffer_loop m = (Returns None, m)"
    if "ReadEnd m = BlockCount m" "blockAt m (unat (BlockCount m)) = Some b" "DoneRead b \<noteq> 1"
    using that SendReadBuffer_loop_stop [of m b] by simp
  have eq_w: "SendWriteBuffer_loop n m = (Fault, m)"
    if "WriteEnd m = BlockCount m" "blockAt m (unat (BlockCount m)) = None"
    using that SendWriteBuffer_loop_fault [of m n] by simp
  have eq_w': "SendWriteBuffer_loop n m = (Returns (n, None), m)"
    if "WriteEnd m = BlockCount m" "blockAt m (unat (BlockCount m)) = Some b" "DoneWrite b \<noteq> 1"
    using that SendWriteBuffer_loop_stop [of m b n] by simp
  show ?thesis
    using send_r send_w eq_r eq_r' eq_w eq_w'
    by (simp add: GetReadBuffer_def GetWriteBuffer_def GetReadBuffer_loop_invalid
          GetWriteBuffer_loop_invalid GetReadBuffer_loop_accepts GetWriteBuffer_loop_accepts
          GetReadBuffer_loop_ignores_WriteStart)
qed


text \<open>
  Rings with corrupt pointers: all four pointers at 5 with 4 blocks; all four at 4; and a
  header that announces 3 blocks in front of 4 mapped ones, with both end pointers at 3.
\<close>

definition corruptHighRing :: sharedMem where
  "corruptHighRing =
     (initRing 4 64 8)\<lparr>ReadStart := 5, ReadEnd := 5, WriteStart := 5, WriteEnd := 5\<rparr>"

definition corruptEqRing :: sharedMem where
  "corruptEqRing =
     (initRing 4 64 8)\<lparr>ReadStart := 4, ReadEnd := 4, WriteStart := 4, WriteEnd := 4\<rparr>"

definition shortCountRing :: sharedMem where
  "shortCountRing = (initRing 4 64 8)\<lparr>BlockCount := 3, ReadEnd := 3, WriteEnd := 3\<rparr>"

theorem pointer_validation_witness:
  "GetReadBuffer openEndpoint corruptHighRing
     = (Returns (Inl ErrInvalidSharedMemory), corruptHighRing)
   \<and> GetWriteBuffer openEndpoint corruptHighRing
     = (Returns (Inl ErrInvalidSharedMemory), corruptHighRing)
   \<and> fst (SendReadBuffer openEndpoint
            \<lparr>block = 0, writeB = False, Data_len = 5, Data_cap = 64\<rparr> corruptHighRing)
     = Returns (Some ErrInvalidSharedMemory)
   \<and> fst (SendWriteBuffer openEndpoint helloLease corruptHighRing)
     = Returns (5, Some ErrInvalidSharedMemory)
   \<and> fst (GetReadBuffer openEndpoint corruptEqRing) \<noteq> Returns (Inl ErrInvalidSharedMemory)
   \<and> fst (GetWriteBuffer openEndpoint corruptEqRing) \<noteq> Returns (Inl ErrInvalidSharedMemory)
   \<and> SendReadBuffer_loop corruptEqRing = (Fault, corruptEqRing)
   \<and> SendWriteBuffer_loop 5 corruptEqRing = (Fault, corruptEqRing)
   \<and> SendReadBuffer_loop shortCountRing = (Returns None, shortCountRing)
   \<and> SendWriteBuffer_loop 5 shortCountRing = (Returns (5, None), shortCountRing)"
proof -
  have hi: "closed openEndpoint = 0"
    "ReadStart corruptHighRing > BlockCount corruptHighRing"
    "WriteStart corruptHighRing > BlockCount corruptHighRing"
    "ReadEnd corruptHighRing > BlockCount corruptHighRing"
    "WriteEnd corruptHighRing > BlockCount corruptHighRing"
    "length (blocks corruptHighRing) = 4"
    by (simp_all add: openEndpoint_def corruptHighRing_def initRing_def)
  have eq: "ReadStart corruptEqRing = BlockCount corruptEqRing"
    "WriteStart corruptEqRing = BlockCount corruptEqRing"
    "ReadEnd corruptEqRing = BlockCount corruptEqRing"
    "WriteEnd corruptEqRing = BlockCount corruptEqRing"
    "blockAt corruptEqRing (unat (BlockCount corruptEqRing)) = None"
    by (simp_all add: corruptEqRing_def initRing_def blockAt_def)
  have sh: "ReadEnd shortCountRing = BlockCount shortCountRing"
    "WriteEnd shortCountRing = BlockCount shortCountRing"
    "blockAt shortCountRing (unat (BlockCount shortCountRing)) = Some (initBlock 4 64 8 3)"
    "DoneRead (initBlock 4 64 8 3) \<noteq> 1" "DoneWrite (initBlock 4 64 8 3) \<noteq> 1"
    by (simp_all add: shortCountRing_def blocks_initRing_4 blockAt_def initBlock_def
          initRing_def)
  show ?thesis
    using hi eq sh
      pointer_validation [where rw = openEndpoint and m = corruptHighRing
        and rb = "\<lparr>block = 0, writeB = False, Data_len = 5, Data_cap = 64\<rparr>"
        and wb = helloLease]
      pointer_validation [where rw = openEndpoint and m = corruptEqRing and n = 5]
      pointer_validation [where rw = openEndpoint and m = shortCountRing and n = 5
        and b = "initBlock 4 64 8 3"]
    by (simp add: helloLease_def)
qed

text \<open>
  C8 as stated fails in its last part: after a peer has stored \<open>BlockCount + 1\<close> in
  \<open>WriteStart\<close> of the ring that holds the published \<open>hello\<close> block, the reader's
  \<open>GetReadBuffer\<close> returns the read lease on that block.
\<close>

theorem corrupt_WriteStart_counterexample:
  "closed openEndpoint = 0
   \<and> WriteStart (helloRing\<lparr>WriteStart := 5\<rparr>) = BlockCount (helloRing\<lparr>WriteStart := 5\<rparr>) + 1
   \<and> fst (GetReadBuffer openEndpoint (helloRing\<lparr>WriteStart := 5\<rparr>))
       = Returns (Inr \<lparr>block = 0, writeB = False, Data_len = 5, Data_cap = 64\<rparr>)
   \<and> fst (GetReadBuffer openEndpoint (helloRing\<lparr>WriteStart := 5\<rparr>))
       \<noteq> Returns (Inl ErrInvalidSharedMemory)"
proof -
  have b: "blockAt (helloRing\<lparr>WriteStart := 5\<rparr>) (unat (ReadStart (helloRing\<lparr>WriteStart := 5\<rparr>)))
             = Some helloBlock"
    by (simp add: helloRing_def initRing_def blockAt_def)
  have "GetReadBuffer openEndpoint (helloRing\<lparr>WriteStart := 5\<rparr>) =
          (Returns (Inr \<lparr>block = 0, writeB = False, Data_len = 5, Data_cap = 64\<rparr>),
           helloRing\<lparr>WriteStart := 5, ReadStart := 1\<rparr>)"
    using GetReadBuffer_loop_acquire [OF _ _ b]
    by (simp add: GetReadBuffer_def openEndpoint_def sliceOK_def)
       (simp add: helloRing_def helloBlock_def initRing_def initBlock_def)
  then show ?thesis
    by (simp add: openEndpoint_def helloRing_def initRing_def)
qed

end
